theory Spec2Isabelle
  imports Complex_Main
begin

section \<open>Console calculator: operations, tokens and the expression parser\<close>

text \<open>
  The program is \<^verbatim>\<open>src/cpp/main.cpp\<close>; \<^verbatim>\<open>src/unnamed/part_000\<close> is an earlier revision
  of the same file whose \<^verbatim>\<open>parseToken\<close> lacks the test for a leading minus sign.

  A C++ \<^verbatim>\<open>double\<close> is modelled by a real number: the arithmetic of the model is exact and
  every value is finite. Rounding, overflow, signed zeros, infinities and NaN are outside
  the model, so it agrees with the program on the runs in which every \<^verbatim>\<open>double\<close>
  operation is exact and finite (in particular, no division by zero). A
  \<^verbatim>\<open>std::string\<close> is a list of characters, and an exception is the left
  summand of the result.
\<close>

type_synonym double = real

subsection \<open>Operations\<close>

text \<open>
  \<^verbatim>\<open>enum class Operation { NONE = 0, SUM, MIN, MUL, DIV, POW }\<close>. The constructors carry
  the prefix \<open>Op\<close> because \<open>SUM\<close> and \<open>MIN\<close> are reserved words of the term syntax.
\<close>

datatype Operation = OpNONE | OpSUM | OpMIN | OpMUL | OpDIV | OpPOW

definition getOperationFromChar :: "char \<Rightarrow> Operation" where
  "getOperationFromChar c =
     (if c = CHR ''+'' then OpSUM
      else if c = CHR ''-'' then OpMIN
      else if c = CHR ''*'' then OpMUL
      else if c = CHR ''/'' then OpDIV
      else if c = CHR ''^'' then OpPOW
      else OpNONE)"

definition MIN_PRIORITY :: int where
  "MIN_PRIORITY = 1"

definition MAX_PRIORITY :: int where
  "MAX_PRIORITY = 3"

fun getPriority :: "Operation \<Rightarrow> int" where
  "getPriority OpSUM = 1"
| "getPriority OpMIN = 1"
| "getPriority OpMUL = 2"
| "getPriority OpDIV = 2"
| "getPriority OpPOW = 3"
| "getPriority OpNONE = 0"

subsection \<open>Tokens\<close>

text \<open>
  \<^verbatim>\<open>struct Token\<close> with its two subclasses \<^verbatim>\<open>NumberToken\<close> (one \<^verbatim>\<open>double\<close>) and
  \<^verbatim>\<open>OperationToken\<close> (an operation and two owned children).
\<close>

datatype Token = NumberToken double | OperationToken Operation Token Token

text \<open>
  \<^verbatim>\<open>std::pow\<close> on the finite fragment: an integral exponent is repeated multiplication (or
  its reciprocal), any other exponent is the real power of a positive base.
\<close>

definition std_pow :: "double \<Rightarrow> double \<Rightarrow> double" where
  "std_pow x y =
     (if of_int \<lfloor>y\<rfloor> = y
      then (if 0 \<le> y then x ^ nat \<lfloor>y\<rfloor> else 1 / x ^ nat (- \<lfloor>y\<rfloor>))
      else x powr y)"

fun resolve :: "Token \<Rightarrow> double" where
  "resolve (NumberToken v) = v"
| "resolve (OperationToken operation a b) =
     (let aValue = resolve a; bValue = resolve b
      in case operation of
           OpSUM \<Rightarrow> aValue + bValue
         | OpMIN \<Rightarrow> aValue - bValue
         | OpMUL \<Rightarrow> aValue * bValue
         | OpDIV \<Rightarrow> aValue / bValue
         | OpPOW \<Rightarrow> std_pow aValue bValue
         | OpNONE \<Rightarrow> 0)"

subsection \<open>The standard library: \<^verbatim>\<open>stod\<close>, \<^verbatim>\<open>to_string\<close>, \<^verbatim>\<open>substr\<close>\<close>

datatype error = Invalid_argument

definition isspace :: "char \<Rightarrow> bool" where
  "isspace c \<longleftrightarrow> c \<in> set [CHR '' '', CHR 0x09, CHR 0x0A, CHR 0x0B, CHR 0x0C, CHR 0x0D]"

definition isdigit :: "char \<Rightarrow> bool" where
  "isdigit c \<longleftrightarrow> c \<in> set ''0123456789''"

definition digit_value :: "char \<Rightarrow> nat" where
  "digit_value c = of_char c - 48"

text \<open>The value of a string of decimal digits, most significant digit first.\<close>

definition digits_value :: "string \<Rightarrow> nat" where
  "digits_value ds = foldl (\<lambda>acc c. 10 * acc + digit_value c) 0 ds"

text \<open>
  The optional exponent part of a decimal floating-point number: \<^verbatim>\<open>e\<close> or \<^verbatim>\<open>E\<close>, an
  optional sign and at least one digit. Without a digit nothing of it is consumed and the
  exponent is 0.
\<close>

definition exponent_part :: "string \<Rightarrow> int" where
  "exponent_part s =
     (case s of
        [] \<Rightarrow> 0
      | c # r \<Rightarrow>
          if c = CHR ''e'' \<or> c = CHR ''E'' then
            (let (negative, r') =
                   (case r of
                      [] \<Rightarrow> (False, r)
                    | d # r'' \<Rightarrow>
                        if d = CHR ''-'' then (True, r'')
                        else if d = CHR ''+'' then (False, r'')
                        else (False, r));
                 ds = takeWhile isdigit r'
             in if ds = [] then 0
                else if negative then - int (digits_value ds) else int (digits_value ds))
          else 0)"

text \<open>
  \<^verbatim>\<open>std::stod(token)\<close> for the decimal syntax of \<^verbatim>\<open>strtod\<close>: leading white space, an
  optional sign, digits with an optional radix point (at least one digit in all), an
  optional exponent. The longest such prefix is converted and the characters after it are
  ignored, since \<^verbatim>\<open>parseNumber\<close> passes no position pointer; with no such prefix
  \<^verbatim>\<open>std::invalid_argument\<close> is thrown. The hexadecimal, \<^verbatim>\<open>inf\<close> and \<^verbatim>\<open>nan\<close> forms of
  \<^verbatim>\<open>strtod\<close> are not modelled.
\<close>

definition sign_part :: "string \<Rightarrow> bool \<times> string" where
  "sign_part s =
     (case s of
        [] \<Rightarrow> (False, s)
      | c # r \<Rightarrow>
          if c = CHR ''-'' then (True, r)
          else if c = CHR ''+'' then (False, r)
          else (False, s))"

definition fraction_part :: "string \<Rightarrow> string \<times> string" where
  "fraction_part s =
     (case s of
        [] \<Rightarrow> ([], s)
      | c # r \<Rightarrow>
          if c = CHR ''.'' then (takeWhile isdigit r, dropWhile isdigit r)
          else ([], s))"

definition stod :: "string \<Rightarrow> error + double" where
  "stod str =
     (let (negative, s1) = sign_part (dropWhile isspace str);
          ip = takeWhile isdigit s1;
          (fp, s3) = fraction_part (dropWhile isdigit s1)
      in if ip = [] \<and> fp = [] then Inl Invalid_argument
         else
           (let mantissa = real (digits_value ip) + real (digits_value fp) / 10 ^ length fp;
                ex = exponent_part s3;
                magnitude = (if 0 \<le> ex then mantissa * 10 ^ nat ex else mantissa / 10 ^ nat (- ex))
            in Inr (if negative then - magnitude else magnitude)))"

text \<open>The decimal digits of a natural number, without leading zeros (\<open>0\<close> is \<open>''0''\<close>).\<close>

definition digit_char :: "nat \<Rightarrow> char" where
  "digit_char d = ''0123456789'' ! d"

fun digits_of :: "nat \<Rightarrow> string" where
  "digits_of n =
     (if n < 10 then [digit_char n]
      else digits_of (n div 10) @ [digit_char (n mod 10)])"

declare digits_of.simps [simp del]

text \<open>
  \<^verbatim>\<open>std::to_string(double)\<close> prints as \<^verbatim>\<open>printf("%f")\<close> does: a minus sign for a negative
  value, the integer part, a point and exactly six decimals, the value being rounded to
  the nearest multiple of \<open>10\<^sup>-\<^sup>6\<close> (a tie goes to the even one).
\<close>

definition round_half_even :: "real \<Rightarrow> int" where
  "round_half_even x =
     (let f = \<lfloor>x\<rfloor>; r = x - of_int f
      in if r < 1 / 2 then f
         else if 1 / 2 < r then f + 1
         else if even f then f else f + 1)"

definition to_string :: "double \<Rightarrow> string" where
  "to_string x =
     (let n = nat (round_half_even (\<bar>x\<bar> * 1000000));
          frac = digits_of (n mod 1000000)
      in (if x < 0 then ''-'' else '''')
         @ digits_of (n div 1000000) @ ''.''
         @ replicate (6 - length frac) CHR ''0'' @ frac)"

text \<open>
  \<^verbatim>\<open>expression.substr(pos, len)\<close> and \<^verbatim>\<open>expression.substr(pos)\<close>. Every call of the parser
  has \<open>pos \<le> length expression\<close>, so the \<^verbatim>\<open>std::out_of_range\<close> of \<^verbatim>\<open>substr\<close> cannot occur.
\<close>

definition substr :: "string \<Rightarrow> nat \<Rightarrow> nat \<Rightarrow> string" where
  "substr s pos len = take len (drop pos s)"

definition substr_from :: "string \<Rightarrow> nat \<Rightarrow> string" where
  "substr_from s pos = drop pos s"

subsection \<open>The parser of \<^verbatim>\<open>src/cpp/main.cpp\<close>\<close>

definition PI :: double where
  "PI = 3.14159265358979323846"

definition E :: double where
  "E = 2.71828182845904523536"

definition parseNumber :: "string \<Rightarrow> error + double" where
  "parseNumber token =
     (if token = ''pi'' then Inr PI
      else if token = ''e'' then Inr E
      else stod token)"

text \<open>
  The inner loop of the parenthesis search: \<open>cs\<close> is the part of the expression from index
  \<open>j\<close> on, \<open>opn\<close> and \<open>cls\<close> are the counters \<^verbatim>\<open>open\<close> and \<^verbatim>\<open>close\<close>. The result is the first
  \<open>j\<close> at which the two counters agree.
\<close>

fun find_close :: "string \<Rightarrow> nat \<Rightarrow> int \<Rightarrow> int \<Rightarrow> nat option" where
  "find_close [] j opn cls = None"
| "find_close (character # cs) j opn cls =
     (let opn' = (if character = CHR ''('' then opn + 1 else opn);
          cls' = (if character \<noteq> CHR ''('' \<and> character = CHR '')'' then cls + 1 else cls)
      in if opn' = cls' then Some j else find_close cs (j + 1) opn' cls')"

text \<open>
  The outer loop: \<open>cs\<close> is the part of the expression from index \<open>i\<close> on. The result is the
  first \<open>i\<close> holding an opening parenthesis for which the inner loop finds a \<open>j\<close>, with
  that \<open>j\<close>.
\<close>

fun find_group :: "string \<Rightarrow> nat \<Rightarrow> (nat \<times> nat) option" where
  "find_group [] i = None"
| "find_group (character # cs) i =
     (if character = CHR ''('' then
        (case find_close cs (i + 1) 1 0 of
           Some j \<Rightarrow> Some (i, j)
         | None \<Rightarrow> find_group cs (i + 1))
      else find_group cs (i + 1))"

text \<open>
  The scan of one priority: \<open>cs\<close> is the part of \<open>expression\<close> from index \<open>i\<close> on. The
  result is the operation, the left side and the right side at the first index that is not
  skipped by one of the three \<^verbatim>\<open>continue\<close> statements.
\<close>

fun find_operation :: "string \<Rightarrow> int \<Rightarrow> string \<Rightarrow> nat \<Rightarrow> (Operation \<times> string \<times> string) option" where
  "find_operation expression priority [] i = None"
| "find_operation expression priority (character # cs) i =
     (let operation = getOperationFromChar character
      in if operation = OpNONE then find_operation expression priority cs (i + 1)
         else if getPriority operation \<noteq> priority then find_operation expression priority cs (i + 1)
         else
           (let right = substr_from expression (i + 1);
                left = substr expression 0 i
            in if left = '''' \<and> operation = OpMIN then find_operation expression priority cs (i + 1)
               else Some (operation, left, right)))"

text \<open>The loop over the priorities, from \<open>MIN_PRIORITY\<close> to \<open>MAX_PRIORITY\<close>.\<close>

fun find_split :: "string \<Rightarrow> int list \<Rightarrow> (Operation \<times> string \<times> string) option" where
  "find_split expression [] = None"
| "find_split expression (priority # ps) =
     (case find_operation expression priority expression 0 of
        Some r \<Rightarrow> Some r
      | None \<Rightarrow> find_split expression ps)"

definition priorities :: "int list" where
  "priorities = [MIN_PRIORITY..MAX_PRIORITY]"

text \<open>
  Facts about the loops that the termination of the parser rests on: the indices they
  return lie inside the expression, and the two sides of a split are shorter than it.
\<close>

lemma find_close_bounds:
  "find_close cs j opn cls = Some k \<Longrightarrow> j \<le> k \<and> k < j + length cs"
  by (induction cs j opn cls rule: find_close.induct) (fastforce simp: Let_def split: if_splits)+

lemma find_group_bounds:
  "find_group cs i = Some (a, b) \<Longrightarrow>
     i \<le> a \<and> a < b \<and> b < i + length cs \<and> cs ! (a - i) = CHR ''(''"
proof (induction cs i rule: find_group.induct)
  case (1 i)
  then show ?case by simp
next
  case (2 character cs i)
  show ?case
  proof (cases "character = CHR ''('' \<and> find_close cs (i + 1) 1 0 \<noteq> None")
    case True
    then obtain j where j: "find_close cs (i + 1) 1 0 = Some j" by auto
    with True "2.prems" have "a = i" "b = j" by auto
    with find_close_bounds[OF j] True show ?thesis by auto
  next
    case False
    with "2.prems" have rec: "find_group cs (i + 1) = Some (a, b)"
      by (auto split: if_splits option.splits)
    from False "2.IH" rec have "i + 1 \<le> a \<and> a < b \<and> b < i + 1 + length cs \<and> cs ! (a - (i + 1)) = CHR ''(''"
      by (auto split: if_splits option.splits)
    moreover have "a - i = Suc (a - (i + 1))" using calculation by arith
    ultimately show ?thesis by simp
  qed
qed

lemma find_operation_bounds:
  "find_operation e p cs i = Some (operation, left, right) \<Longrightarrow>
     \<exists>k. i \<le> k \<and> k < i + length cs \<and> left = take k e \<and> right = drop (k + 1) e"
proof (induction e p cs i rule: find_operation.induct)
  case (1 e p i)
  then show ?case by simp
next
  case (2 e p character cs i)
  let ?op = "getOperationFromChar character"
  show ?case
  proof (cases "?op = OpNONE \<or> getPriority ?op \<noteq> p \<or> (substr e 0 i = [] \<and> ?op = OpMIN)")
    case True
    with "2.prems" have rec: "find_operation e p cs (i + 1) = Some (operation, left, right)"
      by (auto simp: Let_def split: if_splits)
    have "\<exists>k. i + 1 \<le> k \<and> k < i + 1 + length cs \<and> left = take k e \<and> right = drop (k + 1) e"
    proof (cases "?op = OpNONE")
      case True
      from "2.IH"(1)[OF refl True rec] show ?thesis .
    next
      case n: False
      show ?thesis
      proof (cases "getPriority ?op \<noteq> p")
        case True
        from "2.IH"(2)[OF refl n True rec] show ?thesis .
      next
        case False
        with True n have "substr e 0 i = [] \<and> ?op = OpMIN" by simp
        from "2.IH"(3)[OF refl n False refl refl this rec] show ?thesis .
      qed
    qed
    then obtain k where "i + 1 \<le> k" "k < i + 1 + length cs" "left = take k e" "right = drop (k + 1) e"
      by blast
    then show ?thesis by (intro exI[of _ k]) simp
  next
    case False
    with "2.prems" have "left = take i e \<and> right = drop (i + 1) e"
      by (auto simp: Let_def substr_def substr_from_def split: if_splits)
    then show ?thesis by (intro exI[of _ i]) simp
  qed
qed

lemma find_split_bounds:
  "find_split e ps = Some (operation, left, right) \<Longrightarrow>
     \<exists>k < length e. left = take k e \<and> right = drop (k + 1) e"
  by (induction e ps rule: find_split.induct)
     (auto split: option.splits dest!: find_operation_bounds)

lemma digit_char_digit: "d < 10 \<Longrightarrow> digit_char d \<in> set ''0123456789''"
  unfolding digit_char_def by (rule nth_mem) simp

lemma digits_of_chars: "set (digits_of n) \<subseteq> set ''0123456789''"
proof (induction n rule: digits_of.induct)
  case (1 n)
  show ?case
  proof (cases "n < 10")
    case True
    then show ?thesis using digit_char_digit[of n] by (subst digits_of.simps) simp
  next
    case False
    have "n mod 10 < 10" by simp
    from digit_char_digit[OF this] 1[OF False] False show ?thesis
      by (subst digits_of.simps) simp
  qed
qed

lemma to_string_no_paren: "CHR ''('' \<notin> set (to_string x)"
  using digits_of_chars by (auto simp: to_string_def Let_def)

text \<open>The number of opening parentheses of a string.\<close>

definition parens :: "string \<Rightarrow> nat" where
  "parens s = length (filter (\<lambda>c. c = CHR ''('') s)"

lemma parens_append [simp]: "parens (xs @ ys) = parens xs + parens ys"
  by (simp add: parens_def)

lemma parens_take_le: "parens (take n s) \<le> parens s"
proof -
  have "parens s = parens (take n s) + parens (drop n s)"
    by (metis append_take_drop_id parens_append)
  then show ?thesis by simp
qed

lemma parens_drop_le: "parens (drop n s) \<le> parens s"
proof -
  have "parens s = parens (take n s) + parens (drop n s)"
    by (metis append_take_drop_id parens_append)
  then show ?thesis by simp
qed

lemma parens_none: "CHR ''('' \<notin> set s \<Longrightarrow> parens s = 0"
  by (auto simp: parens_def filter_empty_conv)

lemma parens_at:
  assumes "i < length s" and "s ! i = CHR ''(''"
  shows "parens s = parens (take i s) + 1 + parens (drop (i + 1) s)"
proof -
  have "s = take i s @ [s ! i] @ drop (i + 1) s"
    using assms(1) by (simp add: id_take_nth_drop)
  then have "parens s = parens (take i s) + parens [s ! i] + parens (drop (i + 1) s)"
    by (metis parens_append add.assoc)
  with assms(2) show ?thesis by (simp add: parens_def)
qed

lemma find_group_parens:
  assumes "find_group e 0 = Some (i, j)"
  shows "parens (substr e (i + 1) (j - i - 1)) < parens e"
    and "parens (substr e 0 i @ to_string x @ substr_from e (j + 1)) < parens e"
proof -
  from find_group_bounds[OF assms] have b: "i < j" "j < length e" "e ! i = CHR ''(''"
    by simp_all
  then have at: "parens e = parens (take i e) + 1 + parens (drop (i + 1) e)"
    by (intro parens_at) simp_all
  have "parens (substr e (i + 1) (j - i - 1)) \<le> parens (drop (i + 1) e)"
    unfolding substr_def by (rule parens_take_le)
  with at show "parens (substr e (i + 1) (j - i - 1)) < parens e" by simp
  have "drop (j + 1) e = drop (j - i) (drop (i + 1) e)"
    using b(1) by simp
  then have "parens (drop (j + 1) e) \<le> parens (drop (i + 1) e)"
    by (metis parens_drop_le)
  with at show "parens (substr e 0 i @ to_string x @ substr_from e (j + 1)) < parens e"
    by (simp add: substr_def substr_from_def parens_none[OF to_string_no_paren])
qed

lemma find_split_smaller:
  assumes "find_split e ps = Some (operation, left, right)"
  shows "parens left \<le> parens e \<and> length left < length e"
    and "parens right \<le> parens e \<and> length right < length e"
proof -
  from find_split_bounds[OF assms] obtain k where
    k: "k < length e" "left = take k e" "right = drop (k + 1) e" by blast
  then show "parens left \<le> parens e \<and> length left < length e"
    by (simp add: parens_take_le)
  from k show "parens right \<le> parens e \<and> length right < length e"
    by (simp add: parens_drop_le)
qed

text \<open>
  \<^verbatim>\<open>parseToken\<close>. An exception thrown by a recursive call leaves the function at once; the
  left side is parsed before the right side. The search returns \<open>i < j\<close>
  (\<open>find_group_bounds\<close>), so the length \<open>j - i - 1\<close> of the inner text is the same in the
  natural numbers as in the \<^verbatim>\<open>int\<close> arithmetic of the source. The recursion ends because
  a substitution removes an opening parenthesis (the text of a number has none) and a
  split shortens the string.
\<close>

function parseToken :: "string \<Rightarrow> error + Token" where
  "parseToken expression =
     (case find_group expression 0 of
        Some (i, j) \<Rightarrow>
          (let subExpression = substr expression (i + 1) (j - i - 1)
           in case parseToken subExpression of
                Inl exn \<Rightarrow> Inl exn
              | Inr token \<Rightarrow>
                  (let newExpression =
                         substr expression 0 i @ to_string (resolve token) @ substr_from expression (j + 1)
                   in parseToken newExpression))
      | None \<Rightarrow>
          (case find_split expression priorities of
             Some (operation, left, right) \<Rightarrow>
               (case parseToken left of
                  Inl exn \<Rightarrow> Inl exn
                | Inr a \<Rightarrow>
                    (case parseToken right of
                       Inl exn \<Rightarrow> Inl exn
                     | Inr b \<Rightarrow> Inr (OperationToken operation a b)))
           | None \<Rightarrow>
               (case parseNumber expression of
                  Inl exn \<Rightarrow> Inl exn
                | Inr v \<Rightarrow> Inr (NumberToken v))))"
  by pat_completeness auto
termination
proof (relation "measures [parens, length]", goal_cases)
  case 1
  show ?case by simp
next
  case (2 expression x2 operation y left right)
  then show ?case
    using find_split_smaller(1)[of expression priorities operation left right] by auto
next
  case (3 expression x2 operation y left right a)
  then show ?case
    using find_split_smaller(2)[of expression priorities operation left right] by auto
next
  case (4 expression x2 i j subExpression)
  then show ?case
    using find_group_parens(1)[of expression i j] by auto
next
  case (5 expression x2 i j subExpression token newExpression)
  then show ?case
    using find_group_parens(2)[of expression i j "resolve token"] by auto
qed

declare parseToken.simps [simp del]

text \<open>
  \<^verbatim>\<open>compileExpression\<close> erases the space characters and parses what is left.
\<close>

definition compileExpression :: "string \<Rightarrow> error + Token" where
  "compileExpression expression =
     (let expressionWithoutSpaces = filter (\<lambda>c. c \<noteq> CHR '' '') expression
      in parseToken expressionWithoutSpaces)"



subsection \<open>The parser of \<^verbatim>\<open>src/unnamed/part_000\<close>\<close>

text \<open>
  The earlier revision has the same loops, without the third \<^verbatim>\<open>continue\<close>: an operator
  character of the priority is the split point even when the left side is empty.
\<close>

fun find_operation_part_000 ::
  "string \<Rightarrow> int \<Rightarrow> string \<Rightarrow> nat \<Rightarrow> (Operation \<times> string \<times> string) option" where
  "find_operation_part_000 expression priority [] i = None"
| "find_operation_part_000 expression priority (character # cs) i =
     (let operation = getOperationFromChar character
      in if operation = OpNONE then find_operation_part_000 expression priority cs (i + 1)
         else if getPriority operation \<noteq> priority
           then find_operation_part_000 expression priority cs (i + 1)
         else
           (let right = substr_from expression (i + 1);
                left = substr expression 0 i
            in Some (operation, left, right)))"

fun find_split_part_000 :: "string \<Rightarrow> int list \<Rightarrow> (Operation \<times> string \<times> string) option" where
  "find_split_part_000 expression [] = None"
| "find_split_part_000 expression (priority # ps) =
     (case find_operation_part_000 expression priority expression 0 of
        Some r \<Rightarrow> Some r
      | None \<Rightarrow> find_split_part_000 expression ps)"

lemma find_operation_part_000_bounds:
  "find_operation_part_000 e p cs i = Some (operation, left, right) \<Longrightarrow>
     \<exists>k. i \<le> k \<and> k < i + length cs \<and> left = take k e \<and> right = drop (k + 1) e"
proof (induction e p cs i rule: find_operation_part_000.induct)
  case (1 e p i)
  then show ?case by simp
next
  case (2 e p character cs i)
  let ?op = "getOperationFromChar character"
  show ?case
  proof (cases "?op = OpNONE \<or> getPriority ?op \<noteq> p")
    case True
    with "2.prems" have rec: "find_operation_part_000 e p cs (i + 1) = Some (operation, left, right)"
      by (auto simp: Let_def split: if_splits)
    have "\<exists>k. i + 1 \<le> k \<and> k < i + 1 + length cs \<and> left = take k e \<and> right = drop (k + 1) e"
    proof (cases "?op = OpNONE")
      case True
      from "2.IH"(1)[OF refl True rec] show ?thesis .
    next
      case n: False
      with True have "getPriority ?op \<noteq> p" by simp
      from "2.IH"(2)[OF refl n this rec] show ?thesis .
    qed
    then obtain k where "i + 1 \<le> k" "k < i + 1 + length cs" "left = take k e" "right = drop (k + 1) e"
      by blast
    then show ?thesis by (intro exI[of _ k]) simp
  next
    case False
    with "2.prems" have "left = take i e \<and> right = drop (i + 1) e"
      by (auto simp: Let_def substr_def substr_from_def split: if_splits)
    then show ?thesis by (intro exI[of _ i]) simp
  qed
qed

lemma find_split_part_000_smaller:
  assumes "find_split_part_000 e ps = Some (operation, left, right)"
  shows "parens left \<le> parens e \<and> length left < length e"
    and "parens right \<le> parens e \<and> length right < length e"
proof -
  have "\<exists>k < length e. left = take k e \<and> right = drop (k + 1) e"
    using assms
    by (induction e ps rule: find_split_part_000.induct)
       (auto split: option.splits dest!: find_operation_part_000_bounds)
  then obtain k where
    k: "k < length e" "left = take k e" "right = drop (k + 1) e" by blast
  then show "parens left \<le> parens e \<and> length left < length e"
    by (simp add: parens_take_le)
  from k show "parens right \<le> parens e \<and> length right < length e"
    by (simp add: parens_drop_le)
qed

function parseToken_part_000 :: "string \<Rightarrow> error + Token" where
  "parseToken_part_000 expression =
     (case find_group expression 0 of
        Some (i, j) \<Rightarrow>
          (let subExpression = substr expression (i + 1) (j - i - 1)
           in case parseToken_part_000 subExpression of
                Inl exn \<Rightarrow> Inl exn
              | Inr token \<Rightarrow>
                  (let newExpression =
                         substr expression 0 i @ to_string (resolve token) @ substr_from expression (j + 1)
                   in parseToken_part_000 newExpression))
      | None \<Rightarrow>
          (case find_split_part_000 expression priorities of
             Some (operation, left, right) \<Rightarrow>
               (case parseToken_part_000 left of
                  Inl exn \<Rightarrow> Inl exn
                | Inr a \<Rightarrow>
                    (case parseToken_part_000 right of
                       Inl exn \<Rightarrow> Inl exn
                     | Inr b \<Rightarrow> Inr (OperationToken operation a b)))
           | None \<Rightarrow>
               (case parseNumber expression of
                  Inl exn \<Rightarrow> Inl exn
                | Inr v \<Rightarrow> Inr (NumberToken v))))"
  by pat_completeness auto
termination
proof (relation "measures [parens, length]", goal_cases)
  case 1
  show ?case by simp
next
  case (2 expression x2 operation y left right)
  then show ?case
    using find_split_part_000_smaller(1)[of expression priorities operation left right] by auto
next
  case (3 expression x2 operation y left right a)
  then show ?case
    using find_split_part_000_smaller(2)[of expression priorities operation left right] by auto
next
  case (4 expression x2 i j subExpression)
  then show ?case
    using find_group_parens(1)[of expression i j] by auto
next
  case (5 expression x2 i j subExpression token newExpression)
  then show ?case
    using find_group_parens(2)[of expression i j "resolve token"] by auto
qed

declare parseToken_part_000.simps [simp del]

section \<open>The branches of the parser\<close>

text \<open>
  One unfolding of \<^verbatim>\<open>parseToken\<close> for each way it can leave: through a parenthesised
  group, through a split at an operator, through \<^verbatim>\<open>parseNumber\<close>.
\<close>

lemma parseToken_group:
  assumes "find_group e 0 = Some (i, j)"
  shows "parseToken e =
     (case parseToken (substr e (i + 1) (j - i - 1)) of
        Inl exn \<Rightarrow> Inl exn
      | Inr token \<Rightarrow>
          parseToken (substr e 0 i @ to_string (resolve token) @ substr_from e (j + 1)))"
  by (subst parseToken.simps) (simp only: assms option.case prod.case Let_def)

lemma parseToken_split:
  assumes "find_group e 0 = None" and "find_split e priorities = Some (operation, left, right)"
  shows "parseToken e =
     (case parseToken left of
        Inl exn \<Rightarrow> Inl exn
      | Inr a \<Rightarrow>
          (case parseToken right of
             Inl exn \<Rightarrow> Inl exn
           | Inr b \<Rightarrow> Inr (OperationToken operation a b)))"
  by (subst parseToken.simps) (simp only: assms option.case prod.case)

lemma parseToken_number:
  assumes "find_group e 0 = None" and "find_split e priorities = None"
  shows "parseToken e =
     (case parseNumber e of Inl exn \<Rightarrow> Inl exn | Inr v \<Rightarrow> Inr (NumberToken v))"
  by (subst parseToken.simps) (simp only: assms option.case)


lemma parseToken_splitI:
  assumes "find_group e 0 = None"
    and "find_split e priorities = Some (operation, left, right)"
    and "parseToken left = Inr a" and "parseToken right = Inr b"
  shows "parseToken e = Inr (OperationToken operation a b)"
  using assms by (simp add: parseToken_split)

lemma parseToken_numberI:
  assumes "find_group e 0 = None" and "find_split e priorities = None"
    and "parseNumber e = r"
  shows "parseToken e = (case r of Inl exn \<Rightarrow> Inl exn | Inr v \<Rightarrow> Inr (NumberToken v))"
  using assms by (simp add: parseToken_number)

text \<open>Rules that evaluate the definitions on a concrete string.\<close>

lemma priorities_eq: "priorities = [1, 2, 3]"
  unfolding priorities_def MIN_PRIORITY_def MAX_PRIORITY_def by (simp add: upto_rec1)




lemmas ev = getOperationFromChar_def isdigit_def isspace_def digit_value_def digits_value_def
  exponent_part_def sign_part_def fraction_part_def stod_def parseNumber_def substr_def substr_from_def priorities_eq Let_def


section \<open>Where the parser splits\<close>

text \<open>
  The positions at which the scan of priority \<open>p\<close> may split the expression \<open>e\<close>: the
  character is an operator of that priority, and it is not a minus sign at index 0.
\<close>

definition splittable :: "string \<Rightarrow> int \<Rightarrow> nat \<Rightarrow> bool" where
  "splittable e p i \<longleftrightarrow>
     i < length e \<and> getOperationFromChar (e ! i) \<noteq> OpNONE \<and>
     getPriority (getOperationFromChar (e ! i)) = p \<and> \<not> (i = 0 \<and> e ! i = CHR ''-'')"

lemma operation_MIN_iff: "getOperationFromChar c = OpMIN \<longleftrightarrow> c = CHR ''-''"
  by (simp add: getOperationFromChar_def)

lemma drop_eq_ConsD:
  assumes "c # cs = drop i e"
  shows "i < length e \<and> c = e ! i \<and> cs = drop (Suc i) e"
proof -
  from assms have i: "i < length e" by (metis drop_all list.distinct(1) not_le)
  then have "drop i e = e ! i # drop (Suc i) e" by (simp add: Cons_nth_drop_Suc)
  with assms i show ?thesis by simp
qed

lemma find_operation_step:
  assumes "c # cs = drop i e"
  shows "find_operation e p (c # cs) i =
     (if splittable e p i then Some (getOperationFromChar (e ! i), take i e, drop (i + 1) e)
      else find_operation e p cs (i + 1))"
proof -
  from drop_eq_ConsD[OF assms] have i: "i < length e" and c: "c = e ! i" by simp_all
  from i have "take i e = [] \<longleftrightarrow> i = 0" by auto
  then show ?thesis
    using i c by (auto simp: splittable_def Let_def substr_def substr_from_def operation_MIN_iff)
qed

lemma find_operation_none:
  "cs = drop i e \<Longrightarrow> (\<forall>k\<ge>i. \<not> splittable e p k) \<Longrightarrow> find_operation e p cs i = None"
proof (induction cs arbitrary: i)
  case Nil
  then show ?case by simp
next
  case (Cons c cs)
  from Cons.prems(1) have step: "c # cs = drop i e" by simp
  from drop_eq_ConsD[OF step] have "cs = drop (Suc i) e" by simp
  moreover from Cons.prems(2) have "\<forall>k\<ge>Suc i. \<not> splittable e p k" by simp
  ultimately have "find_operation e p cs (Suc i) = None" by (rule Cons.IH)
  with Cons.prems(2) show ?case by (subst find_operation_step[OF step]) simp
qed

lemma find_operation_first:
  "cs = drop i e \<Longrightarrow> i \<le> k \<Longrightarrow> splittable e p k \<Longrightarrow>
   (\<forall>k'. i \<le> k' \<and> k' < k \<longrightarrow> \<not> splittable e p k') \<Longrightarrow>
   find_operation e p cs i = Some (getOperationFromChar (e ! k), take k e, drop (k + 1) e)"
proof (induction cs arbitrary: i)
  case Nil
  then have "length e \<le> i" by simp
  moreover from Nil.prems(3) have "k < length e" by (simp add: splittable_def)
  ultimately show ?case using Nil.prems(2) by simp
next
  case (Cons c cs)
  from Cons.prems(1) have step: "c # cs = drop i e" by simp
  show ?case
  proof (cases "i = k")
    case True
    with Cons.prems(3) show ?thesis by (subst find_operation_step[OF step]) simp
  next
    case False
    with Cons.prems(2) have lt: "i < k" by simp
    with Cons.prems(4) have no: "\<not> splittable e p i" by simp
    from drop_eq_ConsD[OF step] have "cs = drop (Suc i) e" by simp
    moreover from lt have "Suc i \<le> k" by simp
    moreover from Cons.prems(4) have "\<forall>k'. Suc i \<le> k' \<and> k' < k \<longrightarrow> \<not> splittable e p k'" by simp
    ultimately have "find_operation e p cs (Suc i) =
        Some (getOperationFromChar (e ! k), take k e, drop (k + 1) e)"
      using Cons.prems(3) by (intro Cons.IH)
    with no show ?thesis by (subst find_operation_step[OF step]) simp
  qed
qed

lemma find_group_none: "CHR ''('' \<notin> set cs \<Longrightarrow> find_group cs i = None"
  by (induction cs i rule: find_group.induct) auto

lemma find_split_first:
  assumes "p \<in> {1, 2, 3}" and "splittable e p i"
    and "\<forall>q k. 1 \<le> q \<and> q < p \<longrightarrow> \<not> splittable e q k"
    and "\<forall>k<i. \<not> splittable e p k"
  shows "find_split e priorities = Some (getOperationFromChar (e ! i), take i e, drop (i + 1) e)"
proof -
  have hit: "find_operation e p e 0 = Some (getOperationFromChar (e ! i), take i e, drop (i + 1) e)"
    using assms(2,4) by (intro find_operation_first) simp_all
  have miss: "find_operation e q e 0 = None" if "1 \<le> q" "q < p" for q
    using assms(3) that by (intro find_operation_none) simp_all
  from assms(1) consider "p = 1" | "p = 2" | "p = 3" by auto
  then show ?thesis
  proof cases
    case 1
    with hit show ?thesis by (simp add: priorities_eq)
  next
    case 2
    with hit miss[of 1] show ?thesis by (simp add: priorities_eq)
  next
    case 3
    with hit miss[of 1] miss[of 2] show ?thesis by (simp add: priorities_eq)
  qed
qed

lemma find_split_none:
  assumes "\<forall>p k. \<not> splittable e p k"
  shows "find_split e priorities = None"
proof -
  have "find_operation e p e 0 = None" for p
    using assms by (intro find_operation_none) simp_all
  then show ?thesis by (simp add: priorities_eq)
qed

section \<open>Decimal literals\<close>

text \<open>
  The text of a decimal literal: an optional minus sign, the digits of the integer part and,
  optionally, a point followed by the digits of the fraction; at least one digit in all.
  Its value is the positional value of the digits.
\<close>

definition decimal_literal :: "bool \<Rightarrow> string \<Rightarrow> string option \<Rightarrow> string" where
  "decimal_literal negative ip fp =
     (if negative then ''-'' else '''') @ ip @ (case fp of None \<Rightarrow> '''' | Some f \<Rightarrow> ''.'' @ f)"

definition literal_parts :: "string \<Rightarrow> string option \<Rightarrow> bool" where
  "literal_parts ip fp \<longleftrightarrow>
     list_all isdigit ip \<and>
     (case fp of None \<Rightarrow> ip \<noteq> [] | Some f \<Rightarrow> list_all isdigit f \<and> (ip \<noteq> [] \<or> f \<noteq> []))"

definition literal_value :: "bool \<Rightarrow> string \<Rightarrow> string option \<Rightarrow> real" where
  "literal_value negative ip fp =
     (if negative then - 1 else 1) *
     (real (digits_value ip) +
      (case fp of None \<Rightarrow> 0 | Some f \<Rightarrow> real (digits_value f) / 10 ^ length f))"

lemma isdigit_facts:
  "isdigit c \<Longrightarrow> \<not> isspace c \<and> c \<noteq> CHR ''-'' \<and> c \<noteq> CHR ''+'' \<and> c \<noteq> CHR ''.'' \<and>
     c \<noteq> CHR ''('' \<and> c \<noteq> CHR ''p'' \<and> c \<noteq> CHR ''e'' \<and> getOperationFromChar c = OpNONE"
  by (auto simp: isdigit_def isspace_def getOperationFromChar_def)

lemma digits_span:
  assumes "list_all isdigit ds" and "rest = [] \<or> \<not> isdigit (hd rest)"
  shows "takeWhile isdigit (ds @ rest) = ds" and "dropWhile isdigit (ds @ rest) = rest"
proof -
  from assms(1) have all: "\<And>x. x \<in> set ds \<Longrightarrow> isdigit x" by (simp add: list_all_iff)
  from assms(2) have t: "takeWhile isdigit rest = []" and d: "dropWhile isdigit rest = rest"
    by (cases rest; simp)+
  show "takeWhile isdigit (ds @ rest) = ds" by (simp add: takeWhile_append2 all t)
  show "dropWhile isdigit (ds @ rest) = rest" by (simp add: dropWhile_append2 all d)
qed

lemma stod_literal:
  assumes "literal_parts ip fp"
  shows "stod (decimal_literal negative ip fp) = Inr (literal_value negative ip fp)"
proof -
  let ?u = "decimal_literal False ip fp"
  let ?tail = "case fp of None \<Rightarrow> '''' | Some f \<Rightarrow> ''.'' @ f"
  let ?f = "case fp of None \<Rightarrow> [] | Some f \<Rightarrow> f"
  from assms have ip: "list_all isdigit ip" by (simp add: literal_parts_def)
  have u: "?u = ip @ ?tail" by (simp add: decimal_literal_def)
  have tail: "?tail = [] \<or> \<not> isdigit (hd ?tail)"
    by (cases fp) (simp_all add: isdigit_def)
  have tk: "takeWhile isdigit ?u = ip" and dr: "dropWhile isdigit ?u = ?tail"
    unfolding u using digits_span[OF ip tail] by simp_all
  have nonempty: "\<not> (ip = [] \<and> ?f = [])"
    using assms by (cases fp) (auto simp: literal_parts_def)
  have frac: "fraction_part ?tail = (?f, [])"
  proof (cases fp)
    case None
    then show ?thesis by (simp add: fraction_part_def)
  next
    case (Some f)
    with assms have "list_all isdigit f" by (simp add: literal_parts_def)
    from digits_span[OF this, of "[]"] Some show ?thesis by (simp add: fraction_part_def)
  qed
  have val: "real (digits_value ip) + real (digits_value ?f) / 10 ^ length ?f
      = literal_value False ip fp"
    by (cases fp) (simp_all add: literal_value_def digits_value_def)
  have body: "(let ip' = takeWhile isdigit ?u;
          (fp', s3) = fraction_part (dropWhile isdigit ?u)
      in if ip' = [] \<and> fp' = [] then Inl Invalid_argument
         else
           (let mantissa = real (digits_value ip') + real (digits_value fp') / 10 ^ length fp';
                ex = exponent_part s3;
                magnitude = (if 0 \<le> ex then mantissa * 10 ^ nat ex else mantissa / 10 ^ nat (- ex))
            in Inr (if n then - magnitude else magnitude)))
      = Inr (if n then - literal_value False ip fp else literal_value False ip fp)" for n
    using nonempty unfolding tk dr frac by (simp add: exponent_part_def val)
  show ?thesis
  proof (cases negative)
    case True
    then have m: "decimal_literal negative ip fp = CHR ''-'' # ?u"
      by (simp add: decimal_literal_def)
    have s: "sign_part (dropWhile isspace (CHR ''-'' # ?u)) = (True, ?u)"
      by (simp add: sign_part_def isspace_def)
    have v: "literal_value negative ip fp = - literal_value False ip fp"
      using True by (simp add: literal_value_def)
    show ?thesis unfolding stod_def m s v prod.case using body[of True] by simp
  next
    case False
    have ne: "?u \<noteq> []"
      using assms by (cases fp) (auto simp: decimal_literal_def literal_parts_def)
    then obtain c cs where ucs: "?u = c # cs" by (cases ?u) simp_all
    have c: "\<not> isspace c \<and> c \<noteq> CHR ''-'' \<and> c \<noteq> CHR ''+''"
    proof (cases ip)
      case Nil
      with assms obtain f where "fp = Some f" by (cases fp) (simp_all add: literal_parts_def)
      with Nil ucs show ?thesis by (auto simp: decimal_literal_def isspace_def)
    next
      case (Cons d ds)
      with ip have "isdigit d" by simp
      with Cons ucs show ?thesis using isdigit_facts[of d] by (simp add: decimal_literal_def)
    qed
    have s: "sign_part (dropWhile isspace ?u) = (False, ?u)"
      using c by (simp add: ucs sign_part_def)
    from False have m: "decimal_literal negative ip fp = ?u"
      and v: "literal_value negative ip fp = literal_value False ip fp" by simp_all
    show ?thesis unfolding stod_def m s v prod.case using body[of False] by simp
  qed
qed

lemma literal_body_digit:
  assumes "literal_parts ip fp" and "c \<in> set (decimal_literal False ip fp)"
  shows "isdigit c \<or> c = CHR ''.''"
proof -
  from assms(2) have "c \<in> set ip \<or> c = CHR ''.'' \<or> (\<exists>f. fp = Some f \<and> c \<in> set f)"
    by (cases fp) (auto simp: decimal_literal_def)
  moreover from assms(1) have "\<And>x. x \<in> set ip \<Longrightarrow> isdigit x"
    by (simp add: literal_parts_def list_all_iff)
  moreover from assms(1) have "\<And>f x. fp = Some f \<Longrightarrow> x \<in> set f \<Longrightarrow> isdigit x"
    by (auto simp: literal_parts_def list_all_iff)
  ultimately show ?thesis by blast
qed

lemma literal_body_chars:
  assumes "literal_parts ip fp" and "c \<in> set (decimal_literal False ip fp)"
  shows "getOperationFromChar c = OpNONE \<and> c \<noteq> CHR ''(''"
  using literal_body_digit[OF assms] isdigit_facts[of c]
  by (auto simp: getOperationFromChar_def)

lemma literal_not_splittable:
  assumes "literal_parts ip fp"
  shows "\<not> splittable (decimal_literal negative ip fp) p k"
proof (cases negative)
  case False
  then show ?thesis
    using literal_body_chars[OF assms] by (auto simp: splittable_def)
next
  case True
  then have m: "decimal_literal negative ip fp = CHR ''-'' # decimal_literal False ip fp"
    by (simp add: decimal_literal_def)
  show ?thesis
  proof (cases k)
    case 0
    then show ?thesis by (simp add: splittable_def m)
  next
    case (Suc k')
    then show ?thesis
      using literal_body_chars[OF assms] by (auto simp: splittable_def m)
  qed
qed

lemma literal_no_paren:
  assumes "literal_parts ip fp"
  shows "CHR ''('' \<notin> set (decimal_literal negative ip fp)"
proof -
  have "set (decimal_literal negative ip fp) \<subseteq> insert CHR ''-'' (set (decimal_literal False ip fp))"
    by (auto simp: decimal_literal_def)
  then show ?thesis using literal_body_chars[OF assms] by auto
qed

lemma literal_not_constant:
  assumes "literal_parts ip fp"
  shows "decimal_literal negative ip fp \<noteq> ''pi'' \<and> decimal_literal negative ip fp \<noteq> ''e''"
proof -
  have "CHR ''p'' \<notin> set (decimal_literal negative ip fp) \<and>
        CHR ''e'' \<notin> set (decimal_literal negative ip fp)"
  proof -
    have sub: "set (decimal_literal negative ip fp)
        \<subseteq> insert CHR ''-'' (set (decimal_literal False ip fp))"
      by (auto simp: decimal_literal_def)
    have "c \<noteq> CHR ''p'' \<and> c \<noteq> CHR ''e''" if "c \<in> set (decimal_literal False ip fp)" for c
      using literal_body_digit[OF assms that] isdigit_facts[of c] by auto
    with sub show ?thesis by auto
  qed
  then show ?thesis by auto
qed

lemma parseToken_literal:
  assumes "literal_parts ip fp"
  shows "parseToken (decimal_literal negative ip fp) = Inr (NumberToken (literal_value negative ip fp))"
proof -
  let ?s = "decimal_literal negative ip fp"
  have g: "find_group ?s 0 = None"
    using literal_no_paren[OF assms] by (rule find_group_none)
  have sp: "find_split ?s priorities = None"
    using literal_not_splittable[OF assms] by (intro find_split_none) simp
  have "parseNumber ?s = stod ?s"
    using literal_not_constant[OF assms] by (simp add: parseNumber_def)
  then have "parseNumber ?s = Inr (literal_value negative ip fp)"
    by (simp add: stod_literal[OF assms])
  with parseToken_number[OF g sp] show ?thesis by simp
qed


section \<open>Worked expressions\<close>

text \<open>The trees of the expressions that the claims name, obtained branch by branch.\<close>

lemma parseToken_digits:
  assumes "ds \<noteq> []" and "list_all isdigit ds"
  shows "parseToken ds = Inr (NumberToken (real (digits_value ds)))"
  using parseToken_literal[of ds None False] assms
  by (simp add: literal_parts_def decimal_literal_def literal_value_def)

lemma parse_2: "parseToken ''2'' = Inr (NumberToken 2)"
  using parseToken_digits[of "''2''"] by (simp add: ev)
lemma parse_3: "parseToken ''3'' = Inr (NumberToken 3)"
  using parseToken_digits[of "''3''"] by (simp add: ev)
lemma parse_4: "parseToken ''4'' = Inr (NumberToken 4)"
  using parseToken_digits[of "''4''"] by (simp add: ev)

lemma parse_3_times_4:
  "parseToken ''3*4'' = Inr (OperationToken OpMUL (NumberToken 3) (NumberToken 4))"
  by (rule parseToken_splitI[where left = "''3''" and right = "''4''"])
     (simp_all add: ev parse_3 parse_4)

lemma parse_2_plus_3_times_4:
  "parseToken ''2+3*4'' =
     Inr (OperationToken OpSUM (NumberToken 2) (OperationToken OpMUL (NumberToken 3) (NumberToken 4)))"
  by (rule parseToken_splitI[where left = "''2''" and right = "''3*4''"])
     (simp_all add: ev parse_2 parse_3_times_4)

lemma parse_minus_7: "parseToken ''-7'' = Inr (NumberToken (- 7))"
  using parseToken_literal[of "''7''" None True]
  by (simp add: literal_parts_def decimal_literal_def literal_value_def ev)

lemma parse_minus_5: "parseToken ''-5'' = Inr (NumberToken (- 5))"
  using parseToken_literal[of "''5''" None True]
  by (simp add: literal_parts_def decimal_literal_def literal_value_def ev)

lemma parse_minus_5_plus_3:
  "parseToken ''-5+3'' = Inr (OperationToken OpSUM (NumberToken (- 5)) (NumberToken 3))"
  by (rule parseToken_splitI[where left = "''-5''" and right = "''3''"])
     (simp_all add: ev parse_minus_5 parse_3)


















lemma parse_empty: "parseToken '''' = Inl Invalid_argument"
  using parseToken_numberI[of "''''" "Inl Invalid_argument"] by (simp add: ev)











lemma parse_plus_5: "parseToken ''+5'' = Inl Invalid_argument"
  using parseToken_split[of "''+5''" OpSUM "''''" "''5''"]
  by (simp add: ev parse_empty)





section \<open>The operator classifier\<close>

text \<open>
  Claim C9. \<^verbatim>\<open>getOperationFromChar\<close> maps the characters \<^verbatim>\<open>+ - * / ^\<close> to the operations
  SUM, MIN, MUL, DIV, POW and every other character to NONE; \<^verbatim>\<open>getPriority\<close> maps SUM and
  MIN to 1, MUL and DIV to 2, POW to 3 and NONE to 0, so its result lies between 0 and 3.
  Both are total functions of their argument alone.
\<close>

theorem classifier_total:
  "getOperationFromChar CHR ''+'' = OpSUM \<and>
   getOperationFromChar CHR ''-'' = OpMIN \<and>
   getOperationFromChar CHR ''*'' = OpMUL \<and>
   getOperationFromChar CHR ''/'' = OpDIV \<and>
   getOperationFromChar CHR ''^'' = OpPOW \<and>
   (c \<notin> set ''+-*/^'' \<longrightarrow> getOperationFromChar c = OpNONE) \<and>
   getPriority OpSUM = 1 \<and> getPriority OpMIN = 1 \<and>
   getPriority OpMUL = 2 \<and> getPriority OpDIV = 2 \<and>
   getPriority OpPOW = 3 \<and> getPriority OpNONE = 0 \<and>
   0 \<le> getPriority operation \<and> getPriority operation \<le> 3"
proof -
  have "0 \<le> getPriority operation \<and> getPriority operation \<le> 3"
    by (cases operation) simp_all
  then show ?thesis
    by (simp add: getOperationFromChar_def)
qed

theorem classifier_total_witness:
  "CHR ''a'' \<notin> set ''+-*/^'' \<and> getOperationFromChar CHR ''a'' = OpNONE \<and>
   getOperationFromChar CHR '' '' = OpNONE \<and> getPriority (getOperationFromChar CHR ''('') = 0"
  using classifier_total [of "CHR ''a''" OpNONE] classifier_total [of "CHR '' ''" OpNONE]
    classifier_total [of "CHR ''(''" OpNONE]
  by simp

section \<open>Evaluation of a token tree\<close>

lemma std_pow_nat: "std_pow x (real n) = x ^ n"
  by (simp add: std_pow_def)

lemma std_pow_powr:
  assumes "0 < x"
  shows "std_pow x y = x powr y"
proof (cases "of_int \<lfloor>y\<rfloor> = y")
  case False
  then show ?thesis by (simp add: std_pow_def)
next
  case True
  show ?thesis
  proof (cases "0 \<le> y")
    case nonneg: True
    then have "0 \<le> \<lfloor>y\<rfloor>" by simp
    then have "real (nat \<lfloor>y\<rfloor>) = of_int \<lfloor>y\<rfloor>" by (rule of_nat_nat)
    with True have "y = real (nat \<lfloor>y\<rfloor>)" by (simp only:)
    then have "x powr y = x ^ nat \<lfloor>y\<rfloor>"
      using assms powr_realpow by metis
    with True nonneg show ?thesis by (simp add: std_pow_def)
  next
    case neg: False
    then have "0 \<le> - \<lfloor>y\<rfloor>" by linarith
    then have "real (nat (- \<lfloor>y\<rfloor>)) = of_int (- \<lfloor>y\<rfloor>)" by (rule of_nat_nat)
    also have "\<dots> = - of_int \<lfloor>y\<rfloor>" by simp
    also have "\<dots> = - y" by (simp only: True)
    finally have "- y = real (nat (- \<lfloor>y\<rfloor>))" by (rule sym)
    then have "x powr (- y) = x ^ nat (- \<lfloor>y\<rfloor>)"
      using assms powr_realpow by metis
    then have "x powr y = 1 / x ^ nat (- \<lfloor>y\<rfloor>)"
      by (metis powr_minus_divide minus_minus)
    with True neg show ?thesis by (simp add: std_pow_def)
  qed
qed

text \<open>
  Claim C4. \<^verbatim>\<open>resolve\<close> is a structural recursion over the tree: a number token resolves
  to the value it stores, an operation token resolves its two children and combines the
  results with \<open>+\<close>, \<open>-\<close>, \<open>*\<close>, \<open>/\<close> or \<^verbatim>\<open>std::pow\<close>, which is the power of the reals
  (repeated multiplication for a natural exponent, \<open>powr\<close> for a positive base). As a
  function of the tree alone it gives the same result however often it is evaluated.
\<close>

theorem resolve_structural:
  "resolve (NumberToken v) = v \<and>
   resolve (OperationToken OpSUM a b) = resolve a + resolve b \<and>
   resolve (OperationToken OpMIN a b) = resolve a - resolve b \<and>
   resolve (OperationToken OpMUL a b) = resolve a * resolve b \<and>
   resolve (OperationToken OpDIV a b) = resolve a / resolve b \<and>
   resolve (OperationToken OpPOW a b) = std_pow (resolve a) (resolve b) \<and>
   std_pow x (real n) = x ^ n \<and>
   (0 < x \<longrightarrow> std_pow x y = x powr y)"
  by (simp add: std_pow_nat std_pow_powr)

theorem resolve_structural_witness:
  "(0::real) < 2 \<and> std_pow 2 (1 / 2) = 2 powr (1 / 2) \<and>
   resolve (OperationToken OpPOW (NumberToken 2) (NumberToken (1 / 2))) = std_pow 2 (1 / 2)"
  using resolve_structural [of 0 "NumberToken 2" "NumberToken (1 / 2)" 2 0 "1 / 2"]
  by simp


section \<open>Splitting at operators\<close>

lemma parseToken_at_split:
  assumes "CHR ''('' \<notin> set e" and "p \<in> {1, 2, 3}" and "splittable e p i"
    and "\<forall>q k. 1 \<le> q \<and> q < p \<longrightarrow> \<not> splittable e q k"
    and "\<forall>k<i. \<not> splittable e p k"
  shows "parseToken e =
     (case parseToken (substr e 0 i) of
        Inl exn \<Rightarrow> Inl exn
      | Inr a \<Rightarrow>
          (case parseToken (substr_from e (i + 1)) of
             Inl exn \<Rightarrow> Inl exn
           | Inr b \<Rightarrow> Inr (OperationToken (getOperationFromChar (e ! i)) a b)))"
proof -
  have g: "find_group e 0 = None" using assms(1) by (rule find_group_none)
  have s: "find_split e priorities =
      Some (getOperationFromChar (e ! i), substr e 0 i, substr_from e (i + 1))"
    using find_split_first[OF assms(2-5)] by (simp add: substr_def substr_from_def)
  show ?thesis by (rule parseToken_split[OF g s])
qed

text \<open>
  Claim C1, as amended. For an expression without an opening parenthesis, let \<open>p\<close> be the
  first of the priorities 1, 2, 3 at which some position is splittable (an operator
  character of that priority other than a minus sign at index 0) and \<open>i\<close> the leftmost
  such position. Then \<^verbatim>\<open>parseToken\<close> parses the text before \<open>i\<close> and the text after \<open>i\<close>
  and returns the operation token of the character at \<open>i\<close> over the two results, or the
  first exception. \<^verbatim>\<open>compileExpression\<close> is \<^verbatim>\<open>parseToken\<close> after the spaces are erased,
  and \<^verbatim>\<open>2+3*4\<close> compiles to a tree that resolves to 14.

  As stated, the claim has no exception for the minus sign at index 0: the counterexample
  is \<^verbatim>\<open>-7\<close>, whose first character is an operator character of priority 1 and which
  compiles to a number token.
\<close>

theorem split_at_loosest_priority:
  "(CHR ''('' \<notin> set e \<and> p \<in> {1, 2, 3} \<and> splittable e p i \<and>
      (\<forall>q k. 1 \<le> q \<and> q < p \<longrightarrow> \<not> splittable e q k) \<and> (\<forall>k<i. \<not> splittable e p k) \<longrightarrow>
    parseToken e =
      (case parseToken (substr e 0 i) of
         Inl exn \<Rightarrow> Inl exn
       | Inr a \<Rightarrow>
           (case parseToken (substr_from e (i + 1)) of
              Inl exn \<Rightarrow> Inl exn
            | Inr b \<Rightarrow> Inr (OperationToken (getOperationFromChar (e ! i)) a b)))) \<and>
   compileExpression e = parseToken (filter (\<lambda>c. c \<noteq> CHR '' '') e) \<and>
   compileExpression ''2+3*4'' =
     Inr (OperationToken OpSUM (NumberToken 2) (OperationToken OpMUL (NumberToken 3) (NumberToken 4))) \<and>
   resolve (OperationToken OpSUM (NumberToken 2) (OperationToken OpMUL (NumberToken 3) (NumberToken 4))) = 14"
  using parseToken_at_split[of e p i]
  by (simp add: compileExpression_def parse_2_plus_3_times_4)

theorem split_at_loosest_priority_witness:
  "CHR ''('' \<notin> set ''2+3*4'' \<and> splittable ''2+3*4'' 1 1 \<and> \<not> splittable ''2+3*4'' 1 0 \<and>
   parseToken ''2+3*4'' =
     (case parseToken ''2'' of
        Inl exn \<Rightarrow> Inl exn
      | Inr a \<Rightarrow>
          (case parseToken ''3*4'' of
             Inl exn \<Rightarrow> Inl exn
           | Inr b \<Rightarrow> Inr (OperationToken OpSUM a b)))"
  using split_at_loosest_priority [of "''2+3*4''" 1 1]
  by (simp add: splittable_def getOperationFromChar_def substr_def substr_from_def
        cong: sum.case_cong)

theorem leading_minus_not_split_counterexample:
  "CHR ''('' \<notin> set ''-7'' \<and> CHR '')'' \<notin> set ''-7'' \<and>
   getPriority (getOperationFromChar (''-7'' ! 0)) = MIN_PRIORITY \<and>
   compileExpression ''-7'' = Inr (NumberToken (- 7))"
  by (simp add: compileExpression_def parse_minus_7 getOperationFromChar_def MIN_PRIORITY_def)

lemma find_operation_cases:
  "(find_operation e p e 0 = None \<and> (\<forall>k. \<not> splittable e p k)) \<or>
   (\<exists>i. splittable e p i \<and> (\<forall>k<i. \<not> splittable e p k) \<and>
      find_operation e p e 0 = Some (getOperationFromChar (e ! i), take i e, drop (i + 1) e))"
proof (cases "\<exists>k. splittable e p k")
  case False
  then have "find_operation e p e 0 = None" by (intro find_operation_none) simp_all
  with False show ?thesis by simp
next
  case True
  define i where "i = (LEAST k. splittable e p k)"
  from True have i: "splittable e p i" unfolding i_def by (metis LeastI)
  have least: "\<forall>k<i. \<not> splittable e p k" unfolding i_def using not_less_Least by blast
  have "find_operation e p e 0 = Some (getOperationFromChar (e ! i), take i e, drop (i + 1) e)"
    using i least by (intro find_operation_first) simp_all
  with i least show ?thesis by blast
qed

lemma find_split_SomeD:
  assumes "find_split e priorities = Some (operation, left, right)"
  shows "\<exists>i. splittable e (getPriority operation) i \<and>
           (\<forall>k<i. \<not> splittable e (getPriority operation) k) \<and>
           (\<forall>q k. 1 \<le> q \<and> q < getPriority operation \<longrightarrow> \<not> splittable e q k) \<and>
           operation = getOperationFromChar (e ! i) \<and> left = take i e \<and> right = drop (i + 1) e"
proof -
  have pr: "getPriority (getOperationFromChar (e ! i)) = p" if "splittable e p i" for p i
    using that by (simp add: splittable_def)
  have small: "q = 1 \<or> q = 2" if "1 \<le> q" "q < 3" for q :: int using that by auto
  from find_operation_cases[of e 1] show ?thesis
  proof (elim disjE conjE exE)
    fix i assume h: "splittable e 1 i" "\<forall>k<i. \<not> splittable e 1 k"
      "find_operation e 1 e 0 = Some (getOperationFromChar (e ! i), take i e, drop (i + 1) e)"
    from h assms have "operation = getOperationFromChar (e ! i) \<and> left = take i e \<and> right = drop (i + 1) e"
      by (simp add: priorities_eq)
    moreover have "\<forall>q k. 1 \<le> q \<and> q < (1::int) \<longrightarrow> \<not> splittable e q k" by auto
    ultimately show ?thesis using h pr[OF h(1)] by (intro exI[of _ i]) simp
  next
    assume n1: "find_operation e 1 e 0 = None" "\<forall>k. \<not> splittable e 1 k"
    from find_operation_cases[of e 2] show ?thesis
    proof (elim disjE conjE exE)
      fix i assume h: "splittable e 2 i" "\<forall>k<i. \<not> splittable e 2 k"
        "find_operation e 2 e 0 = Some (getOperationFromChar (e ! i), take i e, drop (i + 1) e)"
      with assms n1 have "operation = getOperationFromChar (e ! i) \<and> left = take i e \<and> right = drop (i + 1) e"
        by (simp add: priorities_eq)
      moreover have "\<forall>q k. 1 \<le> q \<and> q < (2::int) \<longrightarrow> \<not> splittable e q k"
        using n1(2) by (metis int_one_le_iff_zero_less zless_add1_eq one_add_one less_le_not_le)
      ultimately show ?thesis using h pr[OF h(1)] by (intro exI[of _ i]) simp
    next
      assume n2: "find_operation e 2 e 0 = None" "\<forall>k. \<not> splittable e 2 k"
      from find_operation_cases[of e 3] show ?thesis
      proof (elim disjE conjE exE)
        fix i assume h: "splittable e 3 i" "\<forall>k<i. \<not> splittable e 3 k"
          "find_operation e 3 e 0 = Some (getOperationFromChar (e ! i), take i e, drop (i + 1) e)"
        with assms n1 n2 have "operation = getOperationFromChar (e ! i) \<and> left = take i e \<and> right = drop (i + 1) e"
          by (simp add: priorities_eq)
        moreover have "\<forall>q k. 1 \<le> q \<and> q < (3::int) \<longrightarrow> \<not> splittable e q k"
          using n1(2) n2(2) small by blast
        ultimately show ?thesis using h pr[OF h(1)] by (intro exI[of _ i]) simp
      next
        assume "find_operation e 3 e 0 = None"
        with assms n1 n2 show ?thesis by (simp add: priorities_eq)
      qed
    qed
  qed
qed


lemma find_split_MIN_left:
  assumes "find_split e priorities = Some (OpMIN, left, right)"
  shows "left \<noteq> []"
proof -
  from find_split_SomeD[OF assms] obtain i where
    i: "splittable e (getPriority OpMIN) i" "OpMIN = getOperationFromChar (e ! i)" "left = take i e"
    by blast
  from i(2) have "e ! i = CHR ''-''" by (simp add: operation_MIN_iff[symmetric])
  with i(1) have "i \<noteq> 0" "i < length e" by (auto simp: splittable_def)
  with i(3) show ?thesis by auto
qed

text \<open>An operand: a string with no operator character and no opening parenthesis.\<close>

definition operand :: "string \<Rightarrow> bool" where
  "operand s \<longleftrightarrow> list_all (\<lambda>c. getOperationFromChar c = OpNONE \<and> c \<noteq> CHR ''('') s"






text \<open>
  Claim C5. A minus sign with an empty left side is never the split point: whenever the
  scan returns a subtraction its left side is not empty. A minus sign in front of a
  decimal literal is therefore read by \<^verbatim>\<open>stod\<close> as its sign, the token being the number
  with the negated value, and \<^verbatim>\<open>-5+3\<close> compiles to the sum of \<open>-5\<close> and 3, which
  resolves to \<open>-2\<close>.
\<close>

theorem leading_minus_skipped:
  "(find_split e priorities = Some (OpMIN, left, right) \<longrightarrow> left \<noteq> '''') \<and>
   (literal_parts ip fp \<longrightarrow>
      parseToken (''-'' @ decimal_literal False ip fp) =
        Inr (NumberToken (- literal_value False ip fp))) \<and>
   compileExpression ''-5+3'' = Inr (OperationToken OpSUM (NumberToken (- 5)) (NumberToken 3)) \<and>
   resolve (OperationToken OpSUM (NumberToken (- 5)) (NumberToken 3)) = - 2"
proof -
  have "parseToken (''-'' @ decimal_literal False ip fp) =
        Inr (NumberToken (- literal_value False ip fp))" if "literal_parts ip fp"
    using parseToken_literal[OF that, of True]
    by (simp add: decimal_literal_def literal_value_def)
  then show ?thesis
    using find_split_MIN_left[of e left right]
    by (simp add: compileExpression_def parse_minus_5_plus_3)
qed

theorem leading_minus_skipped_witness:
  "find_split ''3-2'' priorities = Some (OpMIN, ''3'', ''2'') \<and> ''3'' \<noteq> '''' \<and>
   find_split ''-5'' priorities = None \<and>
   literal_parts ''5'' None \<and> parseToken ''-5'' = Inr (NumberToken (- 5))"
proof -
  have f: "find_split ''3-2'' priorities = Some (OpMIN, ''3'', ''2'')"
    and n: "find_split ''-5'' priorities = None"
    by (simp_all add: ev)
  have l: "literal_parts ''5'' None" by (simp add: literal_parts_def isdigit_def)
  from leading_minus_skipped [of "''3-2''" "''3''" "''2''" "''5''" None]
  show ?thesis using f n l by (simp add: decimal_literal_def literal_value_def ev)
qed

section \<open>Parenthesised groups\<close>










section \<open>Literals and malformed input\<close>







lemma operand_no_paren: "operand s \<Longrightarrow> CHR ''('' \<notin> set s"
  by (auto simp: operand_def list_all_iff)











section \<open>The two revisions of the parser\<close>

text \<open>
  Where the scan of \<^verbatim>\<open>part_000\<close> finds nothing, so does the scan of \<^verbatim>\<open>main.cpp\<close>; where
  it finds a split with a left side that is not empty, the scan of \<^verbatim>\<open>main.cpp\<close> finds
  the same split.
\<close>

lemma find_operation_part_000_None:
  "find_operation_part_000 e p cs i = None \<Longrightarrow> find_operation e p cs i = None"
  by (induction e p cs i rule: find_operation_part_000.induct)
     (auto simp: Let_def split: if_splits)

lemma find_operation_part_000_Some:
  "find_operation_part_000 e p cs i = Some (operation, left, right) \<Longrightarrow> left \<noteq> [] \<Longrightarrow>
   find_operation e p cs i = Some (operation, left, right)"
  by (induction e p cs i rule: find_operation_part_000.induct)
     (auto simp: Let_def split: if_splits)

lemma find_split_part_000_None:
  "find_split_part_000 e ps = None \<Longrightarrow> find_split e ps = None"
  by (induction e ps rule: find_split_part_000.induct)
     (auto split: option.splits dest: find_operation_part_000_None)

lemma find_split_part_000_Some:
  "find_split_part_000 e ps = Some (operation, left, right) \<Longrightarrow> left \<noteq> [] \<Longrightarrow>
   find_split e ps = Some (operation, left, right)"
proof (induction e ps rule: find_split_part_000.induct)
  case (1 e)
  then show ?case by simp
next
  case (2 e p ps)
  show ?case
  proof (cases "find_operation_part_000 e p e 0")
    case None
    with 2 find_operation_part_000_None[OF None] show ?thesis by simp
  next
    case (Some r)
    with "2.prems" have "r = (operation, left, right)" by simp
    with Some "2.prems"(2) have "find_operation e p e 0 = Some (operation, left, right)"
      by (simp add: find_operation_part_000_Some)
    then show ?thesis by simp
  qed
qed

lemma parseToken_part_000_empty: "parseToken_part_000 '''' = Inl Invalid_argument"
  by (subst parseToken_part_000.simps) (simp add: ev)

lemma parseToken_part_000_refines:
  "parseToken_part_000 e = Inr t \<Longrightarrow> parseToken e = Inr t"
proof (induction e arbitrary: t rule: parseToken_part_000.induct)
  case (1 e)
  show ?case
  proof (cases "find_group e 0")
    case (Some ij)
    obtain i j where ij: "ij = (i, j)" by (cases ij)
    let ?sub = "substr e (i + 1) (j - i - 1)"
    from "1.prems" Some ij obtain token where
      inner: "parseToken_part_000 ?sub = Inr token"
      and outer: "parseToken_part_000
          (substr e 0 i @ to_string (resolve token) @ substr_from e (j + 1)) = Inr t"
      by (subst (asm) parseToken_part_000.simps) (auto simp: Let_def split: sum.splits)
    from "1.IH"(3)[OF Some ij[symmetric] refl inner]
    have a: "parseToken ?sub = Inr token" .
    from "1.IH"(4)[OF Some ij[symmetric] refl inner refl outer]
    have b: "parseToken (substr e 0 i @ to_string (resolve token) @ substr_from e (j + 1)) = Inr t" .
    from Some ij have "find_group e 0 = Some (i, j)" by simp
    from parseToken_group[OF this] a b show ?thesis by simp
  next
    case None
    show ?thesis
    proof (cases "find_split_part_000 e priorities")
      case n: None
      with "1.prems" None have "(case parseNumber e of Inl exn \<Rightarrow> Inl exn
          | Inr v \<Rightarrow> Inr (NumberToken v)) = Inr t"
        by (subst (asm) parseToken_part_000.simps) simp
      with parseToken_number[OF None find_split_part_000_None[OF n]] show ?thesis by simp
    next
      case (Some r)
      obtain operation left right where r: "r = (operation, left, right)" by (cases r)
      obtain y where y: "r = (operation, y)" "y = (left, right)" using r by simp
      from "1.prems" None Some r obtain a b where
        l: "parseToken_part_000 left = Inr a" and rr: "parseToken_part_000 right = Inr b"
        and t: "t = OperationToken operation a b"
        by (subst (asm) parseToken_part_000.simps) (auto split: sum.splits)
      from l have "left \<noteq> []" using parseToken_part_000_empty by auto
      with Some r have sp: "find_split e priorities = Some (operation, left, right)"
        by (simp add: find_split_part_000_Some)
      from "1.IH"(1)[OF None Some y(1)[symmetric] y(2)[symmetric] l]
      have la: "parseToken left = Inr a" .
      from "1.IH"(2)[OF None Some y(1)[symmetric] y(2)[symmetric] l rr]
      have rb: "parseToken right = Inr b" .
      from parseToken_split[OF None sp] la rb t show ?thesis by simp
    qed
  qed
qed

lemma part_000_parse_2: "parseToken_part_000 ''2'' = Inr (NumberToken 2)"
  by (subst parseToken_part_000.simps) (simp add: ev)

lemma part_000_parse_3: "parseToken_part_000 ''3'' = Inr (NumberToken 3)"
  by (subst parseToken_part_000.simps) (simp add: ev)

lemma part_000_parse_2_plus_3:
  "parseToken_part_000 ''2+3'' = Inr (OperationToken OpSUM (NumberToken 2) (NumberToken 3))"
  by (subst parseToken_part_000.simps) (simp add: ev part_000_parse_2 part_000_parse_3)

lemma part_000_parse_minus_5: "parseToken_part_000 ''-5'' = Inl Invalid_argument"
  by (subst parseToken_part_000.simps) (simp add: ev parseToken_part_000_empty)

text \<open>
  Claim C10, as amended. Whenever \<^verbatim>\<open>parseToken\<close> of \<^verbatim>\<open>part_000\<close> returns a tree,
  \<^verbatim>\<open>parseToken\<close> of \<^verbatim>\<open>main.cpp\<close> returns the same tree, which resolves to the same
  number; and whenever \<^verbatim>\<open>parseToken\<close> of \<^verbatim>\<open>main.cpp\<close> fails, so does that of
  \<^verbatim>\<open>part_000\<close>.

  As stated (both fail or both agree) the claim does not hold: on \<^verbatim>\<open>-5\<close> the parser of
  \<^verbatim>\<open>part_000\<close> fails and the parser of \<^verbatim>\<open>main.cpp\<close> returns the number \<open>-5\<close>.
\<close>

theorem part_000_refined_by_main:
  "(parseToken_part_000 e = Inr t \<longrightarrow> parseToken e = Inr t) \<and>
   (parseToken e = Inl exn \<longrightarrow> parseToken_part_000 e = Inl exn)"
proof -
  have r: "parseToken_part_000 e = Inr t' \<Longrightarrow> parseToken e = Inr t'" for t'
    by (rule parseToken_part_000_refines)
  have "parseToken_part_000 e = Inl exn" if f: "parseToken e = Inl exn"
  proof (cases "parseToken_part_000 e")
    case (Inl x)
    then show ?thesis by (cases x; cases exn) simp
  next
    case (Inr t')
    from r[OF Inr] f show ?thesis by simp
  qed
  with r show ?thesis by blast
qed

theorem part_000_refined_by_main_witness:
  "parseToken_part_000 ''2+3'' = Inr (OperationToken OpSUM (NumberToken 2) (NumberToken 3)) \<and>
   parseToken ''2+3'' = Inr (OperationToken OpSUM (NumberToken 2) (NumberToken 3)) \<and>
   parseToken ''+5'' = Inl Invalid_argument \<and> parseToken_part_000 ''+5'' = Inl Invalid_argument"
  using part_000_refined_by_main
      [of "''2+3''" "OperationToken OpSUM (NumberToken 2) (NumberToken 3)"]
    part_000_refined_by_main [of "''+5''" _ Invalid_argument]
  by (simp add: part_000_parse_2_plus_3 parse_plus_5)

theorem parsers_differ_counterexample:
  "parseToken ''-5'' = Inr (NumberToken (- 5)) \<and>
   parseToken_part_000 ''-5'' = Inl Invalid_argument"
  by (simp add: parse_minus_5 part_000_parse_minus_5)

end
